theory Spec2Isabelle
  imports Complex_Main "HOL-Library.AList"
begin

section \<open>The KOOK gateway client (class KookWSClient)\<close>

text \<open>
  The class \<^verbatim>\<open>KookWSClient\<close> keeps one WebSocket session to the KOOK gateway alive. Its
  methods are translated one by one. The object's fields and the part of the host
  runtime the methods talk to (timers, sockets, the random number generator, the callbacks
  of \<^verbatim>\<open>options\<close>) are one record, passed through every method and returned updated.

  Conventions of the translation:
  \<^item> sequence numbers are \<open>int\<close>: the wire protocol sends integers, and the model does not
    follow the rounding of JavaScript numbers beyond \<open>2^53\<close>;
  \<^item> \<^verbatim>\<open>null\<close> and \<^verbatim>\<open>undefined\<close> are \<open>None\<close>;
  \<^item> time is a virtual clock in milliseconds; synchronous code takes no time;
  \<^item> an \<^verbatim>\<open>async\<close> method is cut at each \<^verbatim>\<open>await\<close>: the part after
    \<^verbatim>\<open>await sleep(ms)\<close> is the callback of the timer that \<^verbatim>\<open>sleep\<close> registers;
  \<^item> every call that leaves the object (a frame sent, a callback of \<^verbatim>\<open>options\<close>, a
    request for the gateway URL, a socket opened or closed) is appended to a trace with
    the time of the call. \<^verbatim>\<open>options.log\<close> only prints and is left out;
    \<^verbatim>\<open>options.error\<close> is kept.
\<close>

subsection \<open>Signals\<close>

text \<open>
  \<^verbatim>\<open>KookWSSignal = { s: number; d: unknown; sn?: number }\<close>. The payload \<^verbatim>\<open>d\<close> is read
  through the fields \<^verbatim>\<open>code\<close> and \<^verbatim>\<open>session_id\<close> (\<^verbatim>\<open>KookHelloData\<close>, and the
  \<^verbatim>\<open>session_id\<close> of RESUME_ACK); everything else in it is opaque to the client.
\<close>

record 'e kdata =
  d_code :: "int option"
  d_session_id :: "string option"
  d_rest :: 'e

record 'e signal =
  sig_s :: int
  sig_d :: "'e kdata"
  sig_sn :: "int option"

definition SIGNAL_EVENT :: int where "SIGNAL_EVENT = 0"
definition SIGNAL_HELLO :: int where "SIGNAL_HELLO = 1"
definition SIGNAL_PING :: int where "SIGNAL_PING = 2"
definition SIGNAL_PONG :: int where "SIGNAL_PONG = 3"
definition SIGNAL_RESUME :: int where "SIGNAL_RESUME = 4"
definition SIGNAL_RECONNECT :: int where "SIGNAL_RECONNECT = 5"
definition SIGNAL_RESUME_ACK :: int where "SIGNAL_RESUME_ACK = 6"

definition HELLO_CODE_SUCCESS :: int where "HELLO_CODE_SUCCESS = 0"

definition HEARTBEAT_INTERVAL_MS :: int where "HEARTBEAT_INTERVAL_MS = 30000"
definition HEARTBEAT_JITTER_MS :: int where "HEARTBEAT_JITTER_MS = 5000"
definition PONG_TIMEOUT_MS :: nat where "PONG_TIMEOUT_MS = 6000"

subsection \<open>The runtime: sockets, timers, trace\<close>

type_synonym bytes = string

text \<open>\<^verbatim>\<open>WebSocket.RawData = Buffer | ArrayBuffer | Buffer[]\<close>\<close>

datatype rawdata = Buffer bytes | ArrayBuffer bytes | BufferArray "bytes list"

datatype readyState = CONNECTING | OPEN | CLOSING | CLOSED

text \<open>The two frames the client sends: \<^verbatim>\<open>{s: 2, sn}\<close> and \<^verbatim>\<open>{s: 4, d: {sn}}\<close>.\<close>

datatype frame = PING int | RESUME int

datatype 'e action =
    Error string
  | OnEvent "'e kdata"
  | OnConnected
  | OnDisconnected
  | OnError
  | GetGateway nat
  | NewWebSocket nat string
  | Close nat "nat option"
  | Send nat frame

text \<open>
  What a timer runs when it fires. \<open>HelloTimeout\<close>, \<open>HeartbeatTick\<close> and \<open>PongTimeout\<close> are
  the callbacks given to \<^verbatim>\<open>setTimeout\<close> and \<^verbatim>\<open>setInterval\<close> in \<^verbatim>\<open>connect\<close>,
  \<^verbatim>\<open>startHeartbeat\<close> and \<^verbatim>\<open>sendPing\<close>. The others are the rest of an \<^verbatim>\<open>async\<close> method
  after an \<^verbatim>\<open>await sleep(ms)\<close>, with the loop counter \<^verbatim>\<open>i\<close> it resumes with.
\<close>

datatype callback =
    HelloTimeout nat
  | HeartbeatTick
  | PongTimeout
  | ProbeSleepDone nat
  | ProbeWaitDone nat
  | ResumeSleepDone nat
  | ResumeWaitDone nat
  | BackoffDone

record timer =
  t_id :: nat
  t_due :: nat
  t_every :: "nat option"
  t_cb :: callback

text \<open>
  One entry per \<^verbatim>\<open>new WebSocket(url)\<close>, that is per call of \<^verbatim>\<open>connect\<close>: the socket's
  \<^verbatim>\<open>readyState\<close>, the \<^verbatim>\<open>helloTimeout\<close> timer of that call, and whether the promise the
  call returned is settled.
\<close>

record conn =
  c_state :: readyState
  c_hello :: nat
  c_settled :: bool

record 'e world =
  ws :: "nat option"
  sessionId :: "string option"
  lastSn :: int
  heartbeatTimer :: "nat option"
  pongTimeout :: "nat option"
  reconnectAttempts :: nat
  buffer :: "(int \<times> 'e signal) list"
  stopped :: bool
  compress :: bool
  now :: nat
  timers :: "timer list"
  next_id :: nat
  conns :: "conn list"
  random :: "nat \<Rightarrow> real"
  drawn :: nat
  inflate :: "bytes \<Rightarrow> bytes option"
  JSON_parse :: "string \<Rightarrow> 'e signal option option"
  trace :: "(nat \<times> 'e action) list"

definition emit :: "'e action \<Rightarrow> 'e world \<Rightarrow> 'e world" where
  "emit a w = w\<lparr>trace := trace w @ [(now w, a)]\<rparr>"

text \<open>\<^verbatim>\<open>setTimeout\<close>, \<^verbatim>\<open>setInterval\<close>: the new timer's handle is \<open>next_id\<close> before the call.\<close>

definition setTimeout :: "callback \<Rightarrow> nat \<Rightarrow> 'e world \<Rightarrow> 'e world" where
  "setTimeout cb ms w =
     w\<lparr>timers := timers w @ [\<lparr>t_id = next_id w, t_due = now w + ms, t_every = None, t_cb = cb\<rparr>],
       next_id := Suc (next_id w)\<rparr>"

definition setInterval :: "callback \<Rightarrow> nat \<Rightarrow> 'e world \<Rightarrow> 'e world" where
  "setInterval cb ms w =
     w\<lparr>timers := timers w @ [\<lparr>t_id = next_id w, t_due = now w + ms, t_every = Some ms, t_cb = cb\<rparr>],
       next_id := Suc (next_id w)\<rparr>"

text \<open>\<^verbatim>\<open>clearTimeout\<close> and \<^verbatim>\<open>clearInterval\<close>; on a timer that has fired they do nothing.\<close>

definition clearTimer :: "nat \<Rightarrow> 'e world \<Rightarrow> 'e world" where
  "clearTimer h w = w\<lparr>timers := filter (\<lambda>t. t_id t \<noteq> h) (timers w)\<rparr>"

text \<open>\<^verbatim>\<open>const sleep = (ms) => new Promise((resolve) => setTimeout(resolve, ms))\<close>\<close>

definition sleep :: "callback \<Rightarrow> nat \<Rightarrow> 'e world \<Rightarrow> 'e world" where
  "sleep rest ms w = setTimeout rest ms w"

definition Math_random :: "'e world \<Rightarrow> real" where
  "Math_random w = random w (drawn w)"

definition readyState_of :: "nat \<Rightarrow> 'e world \<Rightarrow> readyState" where
  "readyState_of k w = (if k < length (conns w) then c_state (conns w ! k) else CLOSED)"

definition set_readyState :: "nat \<Rightarrow> readyState \<Rightarrow> 'e world \<Rightarrow> 'e world" where
  "set_readyState k r w =
     (if k < length (conns w) then w\<lparr>conns := (conns w)[k := (conns w ! k)\<lparr>c_state := r\<rparr>]\<rparr> else w)"

text \<open>
  \<^verbatim>\<open>ws.close(code)\<close>: the socket starts closing; its \<^verbatim>\<open>close\<close> event comes later, from
  the runtime.
\<close>

definition ws_close :: "nat \<Rightarrow> nat option \<Rightarrow> 'e world \<Rightarrow> 'e world" where
  "ws_close k code w =
     (let w1 = emit (Close k code) w
      in if readyState_of k w1 = CLOSED then w1 else set_readyState k CLOSING w1)"

subsection \<open>Sequence reassembly\<close>

text \<open>
  \<^verbatim>\<open>dispatchEvent\<close> calls \<^verbatim>\<open>options.onEvent\<close> inside \<^verbatim>\<open>try\<close>: an error of the consumer is
  caught there and changes nothing in the client. The model records the call.
\<close>

definition dispatchEvent :: "'e kdata \<Rightarrow> 'e world \<Rightarrow> 'e world" where
  "dispatchEvent event w = emit (OnEvent event) w"

function processEventBuffer :: "'e world \<Rightarrow> 'e world" where
  "processEventBuffer w =
     (case map_of (buffer w) (lastSn w + 1) of
        None \<Rightarrow> w
      | Some next \<Rightarrow>
          processEventBuffer
            (dispatchEvent (sig_d next)
               (w\<lparr>buffer := AList.delete (lastSn w + 1) (buffer w), lastSn := lastSn w + 1\<rparr>)))"
  by pat_completeness auto

termination processEventBuffer
proof (relation "measure (\<lambda>w. length (buffer w))")
  show "wf (measure (\<lambda>w::'e world. length (buffer w)))"
    by simp
next
  fix w :: "'e world" and sg :: "'e signal"
  assume found: "map_of (buffer w) (lastSn w + 1) = Some sg"
  have shorter: "map_of al k = Some v \<Longrightarrow> length (AList.delete k al) < length al"
    for al :: "(int \<times> 'e signal) list" and k v
    by (induction al) (auto simp: less_Suc_eq_le length_delete_le split: if_splits)
  from shorter [OF found]
  show "(dispatchEvent (sig_d sg)
           (w\<lparr>buffer := AList.delete (lastSn w + 1) (buffer w), lastSn := lastSn w + 1\<rparr>), w)
        \<in> measure (\<lambda>w. length (buffer w))"
    by (simp add: dispatchEvent_def emit_def)
qed

declare processEventBuffer.simps [simp del]

definition handleEvent :: "'e signal \<Rightarrow> 'e world \<Rightarrow> 'e world" where
  "handleEvent signal w =
     (case sig_sn signal of
        None \<Rightarrow> w
      | Some sn \<Rightarrow>
          if sn = lastSn w + 1 then
            processEventBuffer (dispatchEvent (sig_d signal) (w\<lparr>lastSn := sn\<rparr>))
          else if sn > lastSn w + 1 then
            w\<lparr>buffer := AList.update sn signal (buffer w)\<rparr>
          else w)"

subsection \<open>Heartbeat\<close>

definition clearHeartbeat :: "'e world \<Rightarrow> 'e world" where
  "clearHeartbeat w =
     (case heartbeatTimer w of
        None \<Rightarrow> w
      | Some h \<Rightarrow> (clearTimer h w)\<lparr>heartbeatTimer := None\<rparr>)"

definition clearPongTimeout :: "'e world \<Rightarrow> 'e world" where
  "clearPongTimeout w =
     (case pongTimeout w of
        None \<Rightarrow> w
      | Some h \<Rightarrow> (clearTimer h w)\<lparr>pongTimeout := None\<rparr>)"

text \<open>
  \<^verbatim>\<open>Math.floor(Math.random() * HEARTBEAT_JITTER_MS * 2) - HEARTBEAT_JITTER_MS\<close>, for the
  value \<open>r\<close> that \<^verbatim>\<open>Math.random()\<close> returned, and the interval built from it.
\<close>

definition jitter_of :: "real \<Rightarrow> int" where
  "jitter_of r = \<lfloor>r * real_of_int HEARTBEAT_JITTER_MS * 2\<rfloor> - HEARTBEAT_JITTER_MS"

definition interval_of :: "real \<Rightarrow> int" where
  "interval_of r = HEARTBEAT_INTERVAL_MS + jitter_of r"

definition startHeartbeat :: "'e world \<Rightarrow> 'e world" where
  "startHeartbeat w =
     (let w1 = clearHeartbeat w;
          interval = interval_of (Math_random w1);
          w2 = w1\<lparr>drawn := Suc (drawn w1)\<rparr>
      in (setInterval HeartbeatTick (nat interval) w2)\<lparr>heartbeatTimer := Some (next_id w2)\<rparr>)"

definition sendPing :: "'e world \<Rightarrow> 'e world" where
  "sendPing w =
     (case ws w of
        None \<Rightarrow> w
      | Some k \<Rightarrow>
          if readyState_of k w \<noteq> OPEN then w
          else
            let w1 = emit (Send k (PING (lastSn w))) w;
                w2 = clearPongTimeout w1
            in (setTimeout PongTimeout PONG_TIMEOUT_MS w2)\<lparr>pongTimeout := Some (next_id w2)\<rparr>)"

definition handlePong :: "'e world \<Rightarrow> 'e world" where
  "handlePong w = clearPongTimeout w"

subsection \<open>Connecting\<close>

text \<open>
  \<^verbatim>\<open>Math.min(60_000, 1000 * Math.pow(2, this.reconnectAttempts - 1))\<close>, computed after
  \<^verbatim>\<open>this.reconnectAttempts++\<close>: the attempt number is at least 1 there.
\<close>

definition backoff_ms :: "nat \<Rightarrow> nat" where
  "backoff_ms attempts = min 60000 (1000 * 2 ^ (attempts - 1))"

text \<open>
  \<^verbatim>\<open>connectFresh\<close> up to its \<^verbatim>\<open>await this.options.client.getGateway(...)\<close>: the request
  goes out. The runtime answers it later with a URL (\<open>connectFresh_gateway\<close>) or a failure
  (\<open>connectFresh_catch\<close>).
\<close>

definition connectFresh :: "'e world \<Rightarrow> 'e world" where
  "connectFresh w =
     (if stopped w then w else emit (GetGateway (if compress w then 1 else 0)) w)"

text \<open>
  \<^verbatim>\<open>reconnectWithBackoff\<close> up to its \<^verbatim>\<open>await sleep(backoff)\<close>; \<open>backoff_done\<close> is the rest.
\<close>

definition backoff_done :: "'e world \<Rightarrow> 'e world" where
  "backoff_done w = (if stopped w then w else connectFresh w)"

definition reconnectWithBackoff :: "'e world \<Rightarrow> 'e world" where
  "reconnectWithBackoff w =
     (if stopped w then w
      else
        let w1 = w\<lparr>reconnectAttempts := reconnectAttempts w + 1\<rparr>;
            backoff = backoff_ms (reconnectAttempts w1)
        in sleep BackoffDone backoff w1)"

text \<open>
  The \<^verbatim>\<open>catch\<close> block of \<^verbatim>\<open>connectFresh\<close>. It runs when \<^verbatim>\<open>getGateway\<close> fails and when
  the promise of \<^verbatim>\<open>connect\<close> is rejected.
\<close>

definition connectFresh_catch :: "'e world \<Rightarrow> 'e world" where
  "connectFresh_catch w =
     (let w1 = emit (Error ''kook ws: failed to get gateway'') w
      in if stopped w1 then w1 else reconnectWithBackoff w1)"

definition settled :: "nat \<Rightarrow> 'e world \<Rightarrow> bool" where
  "settled k w = (if k < length (conns w) then c_settled (conns w ! k) else True)"

definition settle :: "nat \<Rightarrow> 'e world \<Rightarrow> 'e world" where
  "settle k w =
     (if k < length (conns w) then w\<lparr>conns := (conns w)[k := (conns w ! k)\<lparr>c_settled := True\<rparr>]\<rparr> else w)"

text \<open>
  \<^verbatim>\<open>resolve()\<close> and \<^verbatim>\<open>reject(err)\<close> of the promise that \<^verbatim>\<open>connect\<close> returned for socket
  \<open>k\<close>. A settled promise ignores both. \<^verbatim>\<open>connectFresh\<close> awaits the promise inside its
  \<^verbatim>\<open>try\<close>: nothing follows a resolution, the \<^verbatim>\<open>catch\<close> block follows a rejection.
\<close>

definition resolve :: "nat \<Rightarrow> 'e world \<Rightarrow> 'e world" where
  "resolve k w = settle k w"

definition reject :: "nat \<Rightarrow> 'e world \<Rightarrow> 'e world" where
  "reject k w = (if settled k w then w else connectFresh_catch (settle k w))"

text \<open>The body of \<^verbatim>\<open>connect(url)\<close>: the new socket is number \<open>length (conns w)\<close>.\<close>

definition connect :: "string \<Rightarrow> 'e world \<Rightarrow> 'e world" where
  "connect url w =
     (if stopped w then w
      else
        let k = length (conns w);
            w1 = (emit (NewWebSocket k url) w)\<lparr>ws := Some k\<rparr>;
            w2 = setTimeout (HelloTimeout k) 6000 w1
        in w2\<lparr>conns := conns w2 @ [\<lparr>c_state = CONNECTING, c_hello = next_id w1, c_settled = False\<rparr>]\<rparr>)"

definition connectFresh_gateway :: "string \<Rightarrow> 'e world \<Rightarrow> 'e world" where
  "connectFresh_gateway url w = connect url w"

text \<open>The callback of \<^verbatim>\<open>helloTimeout\<close> in \<^verbatim>\<open>connect\<close>.\<close>

definition helloTimeout_fired :: "nat \<Rightarrow> 'e world \<Rightarrow> 'e world" where
  "helloTimeout_fired k w =
     reject k (ws_close k None (emit (Error ''kook ws: HELLO timeout (6s)'') w))"

definition hello_timer :: "nat \<Rightarrow> 'e world \<Rightarrow> nat option" where
  "hello_timer k w = (if k < length (conns w) then Some (c_hello (conns w ! k)) else None)"

definition clear_helloTimeout :: "nat \<Rightarrow> 'e world \<Rightarrow> 'e world" where
  "clear_helloTimeout k w = (case hello_timer k w of None \<Rightarrow> w | Some h \<Rightarrow> clearTimer h w)"

subsection \<open>Recovery\<close>

definition handleReconnect :: "'e world \<Rightarrow> 'e world" where
  "handleReconnect w =
     (let w1 = w\<lparr>lastSn := 0, sessionId := None, buffer := []\<rparr>;
          w2 = (case ws w1 of
                  None \<Rightarrow> w1
                | Some k \<Rightarrow> (ws_close k (Some 1000) w1)\<lparr>ws := None\<rparr>);
          w3 = clearPongTimeout (clearHeartbeat w2)
      in if stopped w3 then w3 else connectFresh w3)"

definition handleResumeAck :: "'e kdata \<Rightarrow> 'e world \<Rightarrow> 'e world" where
  "handleResumeAck d w = startHeartbeat (w\<lparr>sessionId := d_session_id d\<rparr>)"

text \<open>
  \<^verbatim>\<open>tryResume\<close> and \<^verbatim>\<open>attemptRecovery\<close>, cut at their \<^verbatim>\<open>await\<close>s. \<open>resume_loop i\<close> is the
  head of the second \<^verbatim>\<open>for\<close> loop with counter \<open>i\<close> (step 3 once the loop is over),
  \<open>resume_slept i\<close> what follows \<^verbatim>\<open>await sleep((i + 1) * 8000)\<close>: the call of \<^verbatim>\<open>tryResume\<close>,
  which returns false at once when there is no open socket or \<^verbatim>\<open>!this.sessionId\<close> holds
  (\<^verbatim>\<open>null\<close> or the empty string), and
  \<open>resume_waited i\<close> what follows the \<^verbatim>\<open>await sleep(6000)\<close> inside \<^verbatim>\<open>tryResume\<close>.
\<close>

definition resume_loop :: "nat \<Rightarrow> 'e world \<Rightarrow> 'e world" where
  "resume_loop i w =
     (if i < 2 then
        (if stopped w then w else sleep (ResumeSleepDone i) ((i + 1) * 8000) w)
      else handleReconnect w)"

definition resume_waited :: "nat \<Rightarrow> 'e world \<Rightarrow> 'e world" where
  "resume_waited i w =
     (let resumed = (heartbeatTimer w \<noteq> None)
      in if resumed then w else resume_loop (i + 1) w)"

definition resume_slept :: "nat \<Rightarrow> 'e world \<Rightarrow> 'e world" where
  "resume_slept i w =
     (case ws w of
        None \<Rightarrow> resume_loop (i + 1) w
      | Some k \<Rightarrow>
          if readyState_of k w \<noteq> OPEN \<or> sessionId w = None \<or> sessionId w = Some []
          then resume_loop (i + 1) w
          else sleep (ResumeWaitDone i) 6000 (emit (Send k (RESUME (lastSn w))) w))"

text \<open>
  The first loop of \<^verbatim>\<open>attemptRecovery\<close>: \<open>probe_loop i\<close> is its head (the second loop once
  it is over), \<open>probe_slept i\<close> what follows \<^verbatim>\<open>await sleep((i + 1) * 2000)\<close> and
  \<open>probe_waited i\<close> what follows \<^verbatim>\<open>await sleep(KookWSClient.PONG_TIMEOUT_MS)\<close>.
\<close>

definition probe_loop :: "nat \<Rightarrow> 'e world \<Rightarrow> 'e world" where
  "probe_loop i w =
     (if i < 2 then
        (if stopped w then w else sleep (ProbeSleepDone i) ((i + 1) * 2000) w)
      else resume_loop 0 w)"

definition probe_waited :: "nat \<Rightarrow> 'e world \<Rightarrow> 'e world" where
  "probe_waited i w =
     (if pongTimeout w = None then startHeartbeat w
      else probe_loop (i + 1) (clearPongTimeout w))"

definition probe_slept :: "nat \<Rightarrow> 'e world \<Rightarrow> 'e world" where
  "probe_slept i w =
     (case ws w of
        None \<Rightarrow> probe_loop (i + 1) w
      | Some k \<Rightarrow>
          if readyState_of k w = OPEN then sleep (ProbeWaitDone i) PONG_TIMEOUT_MS (sendPing w)
          else probe_loop (i + 1) w)"

definition attemptRecovery :: "'e world \<Rightarrow> 'e world" where
  "attemptRecovery w = probe_loop 0 (clearPongTimeout (clearHeartbeat w))"

subsection \<open>Inbound frames\<close>

text \<open>
  \<^verbatim>\<open>inflateAsync\<close> (\<^verbatim>\<open>inflate\<close> of \<^verbatim>\<open>node:zlib\<close>) and \<^verbatim>\<open>JSON.parse\<close> belong to the
  runtime: \<open>None\<close> is a thrown error. \<^verbatim>\<open>JSON.parse\<close> returns \<^verbatim>\<open>null\<close> (\<open>Some None\<close>) or a
  value that the source casts to \<^verbatim>\<open>KookWSSignal\<close>. A byte string stands for its own
  UTF-8 text. A method that can let an error out returns an \<open>outcome\<close>.
\<close>

datatype 'a outcome = Returns 'a | Throws

definition frame_text :: "rawdata \<Rightarrow> 'e world \<Rightarrow> string" where
  "frame_text data w =
     (case data of
        Buffer b \<Rightarrow>
          if compress w then
            (case inflate w b of Some decompressed \<Rightarrow> decompressed | None \<Rightarrow> b)
          else b
      | ArrayBuffer b \<Rightarrow> b
      | BufferArray bs \<Rightarrow> concat bs)"

definition parseMessage :: "rawdata \<Rightarrow> 'e world \<Rightarrow> 'e signal option outcome \<times> 'e world" where
  "parseMessage data w =
     (let text = frame_text data w
      in case JSON_parse w text of
           Some v \<Rightarrow> (Returns v, w)
         | None \<Rightarrow> (Returns None, emit (Error ''kook ws: failed to parse JSON'') w))"

definition handleSignal :: "'e signal \<Rightarrow> 'e world \<Rightarrow> 'e world" where
  "handleSignal signal w =
     (if sig_s signal = SIGNAL_EVENT then handleEvent signal w
      else if sig_s signal = SIGNAL_PONG then handlePong w
      else if sig_s signal = SIGNAL_RECONNECT then handleReconnect w
      else if sig_s signal = SIGNAL_RESUME_ACK then handleResumeAck (sig_d signal) w
      else w)"

text \<open>The handlers that \<^verbatim>\<open>connect\<close> registers on socket \<open>k\<close>.\<close>

definition on_message :: "nat \<Rightarrow> rawdata \<Rightarrow> 'e world \<Rightarrow> 'e world" where
  "on_message k data w =
     (case parseMessage data w of
        (Throws, w1) \<Rightarrow> emit (Error ''kook ws: message parse error'') w1
      | (Returns None, w1) \<Rightarrow> w1
      | (Returns (Some signal), w1) \<Rightarrow>
          if sig_s signal = SIGNAL_HELLO then
            (let w2 = clear_helloTimeout k w1;
                 hello = sig_d signal
             in if d_code hello = Some HELLO_CODE_SUCCESS then
                  resolve k
                    (emit OnConnected
                       (startHeartbeat
                          (w2\<lparr>sessionId := d_session_id hello, reconnectAttempts := 0\<rparr>)))
                else
                  reject k (ws_close k None (emit (Error ''kook ws: HELLO failed'') w2)))
          else handleSignal signal w1)"

definition on_close :: "nat \<Rightarrow> 'e world \<Rightarrow> 'e world" where
  "on_close k w =
     (let w1 = clearPongTimeout (clearHeartbeat (clear_helloTimeout k w))
      in if stopped w1 then w1 else reconnectWithBackoff w1)"

definition on_error :: "nat \<Rightarrow> 'e world \<Rightarrow> 'e world" where
  "on_error k w = emit OnError (emit (Error ''kook ws: error'') w)"

subsection \<open>Start and stop\<close>

definition start :: "'e world \<Rightarrow> 'e world" where
  "start w = connectFresh (w\<lparr>stopped := False\<rparr>)"

definition stop :: "'e world \<Rightarrow> 'e world" where
  "stop w =
     (let w1 = clearPongTimeout (clearHeartbeat (w\<lparr>stopped := True\<rparr>));
          w2 = (case ws w1 of
                  None \<Rightarrow> w1
                | Some k \<Rightarrow> (ws_close k (Some 1000) w1)\<lparr>ws := None\<rparr>)
      in emit OnDisconnected w2)"

subsection \<open>The event loop\<close>

text \<open>
  The pending timer that fires next: the earliest due, and among timers due at the same
  time the one registered first. Node.js keeps the timers of one duration in a queue and
  runs them in the order of their registration; so of two timers of 6000 ms set one after
  the other in the same synchronous code, the first runs first. What follows an
  \<^verbatim>\<open>await\<close> runs as soon as the callback that resolved the promise returns, before any
  other timer or socket event: the model runs it inside that callback.
\<close>

fun next_timer :: "timer list \<Rightarrow> timer option" where
  "next_timer [] = None"
| "next_timer (t # ts) =
     (case next_timer ts of
        None \<Rightarrow> Some t
      | Some u \<Rightarrow> if t_due u < t_due t then Some u else Some t)"

definition run_callback :: "callback \<Rightarrow> 'e world \<Rightarrow> 'e world" where
  "run_callback cb w =
     (case cb of
        HelloTimeout k \<Rightarrow> helloTimeout_fired k w
      | HeartbeatTick \<Rightarrow> sendPing w
      | PongTimeout \<Rightarrow> attemptRecovery w
      | ProbeSleepDone i \<Rightarrow> probe_slept i w
      | ProbeWaitDone i \<Rightarrow> probe_waited i w
      | ResumeSleepDone i \<Rightarrow> resume_slept i w
      | ResumeWaitDone i \<Rightarrow> resume_waited i w
      | BackoffDone \<Rightarrow> backoff_done w)"

text \<open>
  The next timer fires: the clock moves to its due time, a \<^verbatim>\<open>setTimeout\<close> timer is gone,
  a \<^verbatim>\<open>setInterval\<close> timer is due again one period later, and the callback runs.
\<close>

definition fire :: "'e world \<Rightarrow> 'e world" where
  "fire w =
     (case next_timer (timers w) of
        None \<Rightarrow> w
      | Some t \<Rightarrow>
          let others = filter (\<lambda>u. t_id u \<noteq> t_id t) (timers w);
              again = (case t_every t of
                         None \<Rightarrow> []
                       | Some ms \<Rightarrow> [t\<lparr>t_due := t_due t + ms\<rparr>])
          in run_callback (t_cb t)
               (w\<lparr>now := max (now w) (t_due t), timers := others @ again\<rparr>))"

text \<open>
  What can happen to the client: a call of \<^verbatim>\<open>start\<close> or \<^verbatim>\<open>stop\<close>, the next timer, the
  answer to a gateway request, an event of socket \<open>k\<close>.
\<close>

datatype event =
    Start
  | Stop
  | Timer
  | GatewayUrl string
  | GatewayFailed
  | WsOpen nat
  | WsMessage nat rawdata
  | WsClose nat
  | WsError nat

definition step :: "'e world \<Rightarrow> event \<Rightarrow> 'e world" where
  "step w e =
     (case e of
        Start \<Rightarrow> start w
      | Stop \<Rightarrow> stop w
      | Timer \<Rightarrow> fire w
      | GatewayUrl url \<Rightarrow> connectFresh_gateway url w
      | GatewayFailed \<Rightarrow> connectFresh_catch w
      | WsOpen k \<Rightarrow> (if readyState_of k w = CONNECTING then set_readyState k OPEN w else w)
      | WsMessage k data \<Rightarrow> on_message k data w
      | WsClose k \<Rightarrow> on_close k (set_readyState k CLOSED w)
      | WsError k \<Rightarrow> on_error k w)"

definition run :: "'e world \<Rightarrow> event list \<Rightarrow> 'e world" where
  "run w es = foldl step w es"

text \<open>A new \<^verbatim>\<open>KookWSClient(options)\<close> in a runtime with the clock at 0.\<close>

definition new_client ::
  "bool \<Rightarrow> (nat \<Rightarrow> real) \<Rightarrow> (bytes \<Rightarrow> bytes option) \<Rightarrow> (string \<Rightarrow> 'e signal option option)
   \<Rightarrow> 'e world" where
  "new_client c rnd infl parse =
     \<lparr>ws = None, sessionId = None, lastSn = 0, heartbeatTimer = None, pongTimeout = None,
      reconnectAttempts = 0, buffer = [], stopped = False, compress = c,
      now = 0, timers = [], next_id = 0, conns = [], random = rnd, drawn = 0,
      inflate = infl, JSON_parse = parse, trace = []\<rparr>"

subsection \<open>Reading the trace\<close>

text \<open>The payloads given to \<^verbatim>\<open>options.onEvent\<close>, and the frames sent with their times.\<close>

definition deliveries :: "'e world \<Rightarrow> 'e kdata list" where
  "deliveries w = concat (map (\<lambda>(t, a). case a of OnEvent ev \<Rightarrow> [ev] | _ \<Rightarrow> []) (trace w))"

definition sent :: "'e world \<Rightarrow> (nat \<times> frame) list" where
  "sent w = concat (map (\<lambda>(t, a). case a of Send k f \<Rightarrow> [(t, f)] | _ \<Rightarrow> []) (trace w))"

definition pending :: "callback \<Rightarrow> 'e world \<Rightarrow> timer list" where
  "pending cb w = filter (\<lambda>t. t_cb t = cb) (timers w)"

subsection \<open>Sequences of calls\<close>

text \<open>An EVENT signal with sequence number \<open>n\<close>, and \<^verbatim>\<open>handleEvent\<close> called on a list of them.\<close>

definition event_signal :: "(int \<Rightarrow> 'e kdata) \<Rightarrow> int \<Rightarrow> 'e signal" where
  "event_signal payload n = \<lparr>sig_s = SIGNAL_EVENT, sig_d = payload n, sig_sn = Some n\<rparr>"

definition observe_all :: "(int \<Rightarrow> 'e kdata) \<Rightarrow> int list \<Rightarrow> 'e world \<Rightarrow> 'e world" where
  "observe_all payload sns w = foldl (\<lambda>w n. handleEvent (event_signal payload n) w) w sns"

text \<open>
  What holds of the reassembler once the sequence numbers in \<open>S\<close> have been observed:
  everything up to \<open>lastSn\<close> was observed and delivered, the rest of \<open>S\<close> is in the buffer.
\<close>

definition seen :: "(int \<Rightarrow> 'e kdata) \<Rightarrow> 'e kdata list \<Rightarrow> int set \<Rightarrow> 'e world \<Rightarrow> bool" where
  "seen payload out S w \<longleftrightarrow>
     0 \<le> lastSn w \<and> (\<forall>k. 1 \<le> k \<and> k \<le> lastSn w \<longrightarrow> k \<in> S) \<and>
     (\<forall>k. map_of (buffer w) k =
            (if k \<in> S \<and> lastSn w < k then Some (event_signal payload k) else None)) \<and>
     deliveries w = out @ map payload [1..lastSn w]"

text \<open>The operations that touch \<^verbatim>\<open>lastSn\<close> and \<^verbatim>\<open>buffer\<close>.\<close>

datatype 'e reassembler_op = Observe "'e signal" | Drain | Reset

fun reassemble :: "'e world \<Rightarrow> 'e reassembler_op \<Rightarrow> 'e world" where
  "reassemble w (Observe signal) = handleEvent signal w"
| "reassemble w Drain = processEventBuffer w"
| "reassemble w Reset = handleReconnect w"

subsection \<open>A concrete runtime\<close>

text \<open>
  A small runtime to run the client in: \<^verbatim>\<open>JSON.parse\<close> knows three frames, \<^verbatim>\<open>Math.random\<close>
  returns \<open>1/2\<close> (or \<open>0, 1/10, 2/10, \<dots>\<close>), \<^verbatim>\<open>inflate\<close> fails on every frame (or
  decompresses the one frame \<open>''x''\<close>).
\<close>

definition numbered :: "int \<Rightarrow> int kdata" where
  "numbered n = \<lparr>d_code = None, d_session_id = None, d_rest = n\<rparr>"

definition hello_signal :: "int signal" where
  "hello_signal =
     \<lparr>sig_s = SIGNAL_HELLO,
      sig_d = \<lparr>d_code = Some 0, d_session_id = Some ''session'', d_rest = 0\<rparr>,
      sig_sn = None\<rparr>"

definition pong_signal :: "int signal" where
  "pong_signal = \<lparr>sig_s = SIGNAL_PONG, sig_d = numbered 0, sig_sn = None\<rparr>"

definition reconnect_signal :: "int signal" where
  "reconnect_signal = \<lparr>sig_s = SIGNAL_RECONNECT, sig_d = numbered 0, sig_sn = None\<rparr>"

definition json :: "string \<Rightarrow> int signal option option" where
  "json text =
     (if text = ''hello'' then Some (Some hello_signal)
      else if text = ''pong'' then Some (Some pong_signal)
      else if text = ''reconnect'' then Some (Some reconnect_signal)
      else None)"

definition no_inflate :: "bytes \<Rightarrow> bytes option" where
  "no_inflate b = None"

definition inflate_x :: "bytes \<Rightarrow> bytes option" where
  "inflate_x b = (if b = ''x'' then Some ''hello'' else None)"

definition half :: "nat \<Rightarrow> real" where
  "half n = 1 / 2"


definition fresh :: "int world" where
  "fresh = new_client True half no_inflate json"

text \<open>The client after a successful handshake on socket 0.\<close>

definition handshake :: "event list" where
  "handshake = [Start, GatewayUrl ''gateway'', WsOpen 0, WsMessage 0 (Buffer ''hello'')]"

definition established :: "int world" where
  "established = run fresh handshake"

text \<open>A client created with \<^verbatim>\<open>compress: false\<close>, in a runtime that could inflate \<open>''x''\<close>.\<close>

definition plain :: "int world" where
  "plain = new_client False half inflate_x json"

text \<open>The first heartbeat tick, answered by PONG: the clock is at 30000.\<close>

definition connected_30s :: "int world" where
  "connected_30s = run established [Timer, WsMessage 0 (Buffer ''pong'')]"

text \<open>
  The socket opens and no frame arrives: the next timer is \<^verbatim>\<open>helloTimeout\<close>, and the socket
  it closes emits its \<^verbatim>\<open>close\<close> event.
\<close>

definition hello_timeout :: "event list" where
  "hello_timeout = [Start, GatewayUrl ''gateway'', WsOpen 0, Timer, WsClose 0]"



text \<open>Nothing arrives any more: 24 timers fire, one after the other.\<close>

definition silence :: "event list" where
  "silence = [Timer, Timer, Timer, Timer, Timer, Timer, Timer, Timer,
              Timer, Timer, Timer, Timer, Timer, Timer, Timer, Timer,
              Timer, Timer, Timer, Timer, Timer, Timer, Timer, Timer]"

subsection \<open>Escalation\<close>

text \<open>The steps of the recovery policy beyond a PING: a RESUME sent, a socket closed, a gateway URL asked for.\<close>

definition escalations :: "'e world \<Rightarrow> (nat \<times> 'e action) list" where
  "escalations w =
     filter (\<lambda>(t, a). case a of Send k (RESUME l) \<Rightarrow> True | Close k c \<Rightarrow> True
                              | GetGateway c \<Rightarrow> True | _ \<Rightarrow> False) (trace w)"

text \<open>
  The states that a silent, open socket leaves the client in after a pong timeout, one
  per timer that fires: the sleep before a probe is pending (\<open>probe_due\<close>); the probe is
  sent, its pong timeout and the sleep that waits for the PONG are pending
  (\<open>probe_sent\<close>); the pong timeout has fired and called \<^verbatim>\<open>attemptRecovery\<close> again, the
  sleep of the first call is still pending (\<open>probe_nested\<close>). \<open>beat w slack hb\<close>: the
  heartbeat is off, or its one timer \<open>hb\<close> is due more than \<open>slack\<close> ms from now.
\<close>

definition beat :: "'e world \<Rightarrow> nat \<Rightarrow> timer list \<Rightarrow> bool" where
  "beat w slack hb \<longleftrightarrow>
     (heartbeatTimer w = None \<and> hb = []) \<or>
     (\<exists>h due ms. heartbeatTimer w = Some h \<and> h < next_id w \<and> now w + slack < due \<and>
        hb = [\<lparr>t_id = h, t_due = due, t_every = Some ms, t_cb = HeartbeatTick\<rparr>])"

definition probe_due :: "'e world \<Rightarrow> bool" where
  "probe_due w \<longleftrightarrow>
     pongTimeout w = None \<and>
     (\<exists>a hb. a < next_id w \<and> beat w 8000 hb \<and> a \<notin> t_id ` set hb \<and>
        timers w = \<lparr>t_id = a, t_due = now w + 2000, t_every = None, t_cb = ProbeSleepDone 0\<rparr> # hb)"

definition probe_sent :: "'e world \<Rightarrow> bool" where
  "probe_sent w \<longleftrightarrow>
     (\<exists>p q hb. pongTimeout w = Some p \<and> p < q \<and> q < next_id w \<and> beat w 6000 hb \<and>
        p \<notin> t_id ` set hb \<and> q \<notin> t_id ` set hb \<and>
        timers w = hb @ [\<lparr>t_id = p, t_due = now w + 6000, t_every = None, t_cb = PongTimeout\<rparr>,
                         \<lparr>t_id = q, t_due = now w + 6000, t_every = None, t_cb = ProbeWaitDone 0\<rparr>])"

definition probe_nested :: "'e world \<Rightarrow> bool" where
  "probe_nested w \<longleftrightarrow>
     pongTimeout w = None \<and> heartbeatTimer w = None \<and>
     (\<exists>q a. q < a \<and> a < next_id w \<and>
        timers w = [\<lparr>t_id = q, t_due = now w, t_every = None, t_cb = ProbeWaitDone 0\<rparr>,
                    \<lparr>t_id = a, t_due = now w + 2000, t_every = None, t_cb = ProbeSleepDone 0\<rparr>])"

definition probing :: "'e world \<Rightarrow> bool" where
  "probing w \<longleftrightarrow>
     (\<exists>k. ws w = Some k \<and> readyState_of k w = OPEN) \<and> \<not> stopped w \<and>
     (\<forall>n. 0 \<le> random w n \<and> random w n < 1) \<and>
     (probe_due w \<or> probe_sent w \<or> probe_nested w)"

section \<open>Properties\<close>

lemmas model_defs = emit_def setTimeout_def setInterval_def clearTimer_def sleep_def Math_random_def
  readyState_of_def set_readyState_def ws_close_def dispatchEvent_def handleEvent_def
  clearHeartbeat_def clearPongTimeout_def jitter_of_def interval_of_def startHeartbeat_def
  sendPing_def handlePong_def backoff_ms_def reconnectWithBackoff_def connectFresh_def
  connectFresh_catch_def settled_def settle_def resolve_def reject_def connect_def
  connectFresh_gateway_def helloTimeout_fired_def hello_timer_def clear_helloTimeout_def
  handleReconnect_def handleResumeAck_def resume_loop_def resume_waited_def resume_slept_def
  probe_loop_def probe_waited_def probe_slept_def attemptRecovery_def frame_text_def backoff_done_def
  parseMessage_def handleSignal_def on_message_def on_close_def on_error_def start_def stop_def
  run_callback_def fire_def step_def run_def new_client_def
  SIGNAL_EVENT_def SIGNAL_HELLO_def SIGNAL_PONG_def SIGNAL_RECONNECT_def SIGNAL_RESUME_ACK_def
  HELLO_CODE_SUCCESS_def HEARTBEAT_INTERVAL_MS_def HEARTBEAT_JITTER_MS_def PONG_TIMEOUT_MS_def

lemmas scenario_defs = numbered_def hello_signal_def pong_signal_def reconnect_signal_def json_def
  no_inflate_def half_def fresh_def handshake_def established_def
  deliveries_def sent_def pending_def event_signal_def observe_all_def

subsection \<open>Sequence reassembly\<close>

lemma deliveries_dispatchEvent:
  "deliveries (dispatchEvent ev w) = deliveries w @ [ev]"
  by (simp add: deliveries_def dispatchEvent_def emit_def)

lemma deliveries_update [simp]:
  "deliveries (w\<lparr>lastSn := l\<rparr>) = deliveries w"
  "deliveries (w\<lparr>buffer := b\<rparr>) = deliveries w"
  by (simp_all add: deliveries_def)

lemma dispatchEvent_fields [simp]:
  "lastSn (dispatchEvent ev w) = lastSn w"
  "buffer (dispatchEvent ev w) = buffer w"
  by (simp_all add: dispatchEvent_def emit_def)

lemma upto_snoc: "1 \<le> l + 1 \<Longrightarrow> [1..l + 1] = [1..l] @ [l + 1]" for l :: int
  by (simp add: upto_rec2)

lemma processEventBuffer_seen:
  "seen payload out S w \<Longrightarrow>
     seen payload out S (processEventBuffer w) \<and> lastSn (processEventBuffer w) + 1 \<notin> S"
proof (induction w rule: processEventBuffer.induct)
  case (1 w)
  show ?case
  proof (cases "map_of (buffer w) (lastSn w + 1)")
    case None
    then have "processEventBuffer w = w"
      by (simp add: processEventBuffer.simps)
    moreover from None "1.prems" have "lastSn w + 1 \<notin> S"
      by (auto simp: seen_def split: if_splits)
    ultimately show ?thesis using "1.prems" by simp
  next
    case (Some sg)
    let ?w' = "dispatchEvent (sig_d sg)
                 (w\<lparr>buffer := AList.delete (lastSn w + 1) (buffer w), lastSn := lastSn w + 1\<rparr>)"
    from Some "1.prems" have sg: "sg = event_signal payload (lastSn w + 1)" and inS: "lastSn w + 1 \<in> S"
      by (auto simp: seen_def split: if_splits)
    have covered: "k \<in> S" if "1 \<le> k" "k \<le> lastSn w + 1" for k
      using that "1.prems" inS by (cases "k = lastSn w + 1") (auto simp: seen_def)
    have "seen payload out S ?w'"
      unfolding seen_def
    proof (intro conjI allI impI)
      show "0 \<le> lastSn ?w'"
        using "1.prems" by (simp add: seen_def)
      show "k \<in> S" if "1 \<le> k \<and> k \<le> lastSn ?w'" for k
        using that covered by simp
      show "map_of (buffer ?w') k =
              (if k \<in> S \<and> lastSn ?w' < k then Some (event_signal payload k) else None)" for k
        using "1.prems" by (auto simp: seen_def delete_conv)
      show "deliveries ?w' = out @ map payload [1..lastSn ?w']"
        using "1.prems"
        by (simp add: seen_def sg event_signal_def deliveries_dispatchEvent upto_snoc)
    qed
    from "1.IH" [OF Some this] Some show ?thesis
      by (simp add: processEventBuffer.simps [of w])
  qed
qed

lemma handleEvent_seen:
  assumes "seen payload out S w" and "lastSn w + 1 \<notin> S"
  shows "seen payload out (insert n S) (handleEvent (event_signal payload n) w)
         \<and> lastSn (handleEvent (event_signal payload n) w) + 1 \<notin> insert n S"
proof -
  consider (inorder) "n = lastSn w + 1" | (gap) "lastSn w + 1 < n" | (dup) "n \<le> lastSn w"
    by linarith
  then show ?thesis
  proof cases
    case inorder
    let ?w' = "dispatchEvent (payload n) (w\<lparr>lastSn := n\<rparr>)"
    have "seen payload out (insert n S) ?w'"
      unfolding seen_def
    proof (intro conjI allI impI)
      show "0 \<le> lastSn ?w'"
        using assms inorder by (simp add: seen_def)
      show "k \<in> insert n S" if "1 \<le> k \<and> k \<le> lastSn ?w'" for k
        using that assms inorder by (cases "k = n") (auto simp: seen_def)
      show "map_of (buffer ?w') k =
              (if k \<in> insert n S \<and> lastSn ?w' < k then Some (event_signal payload k) else None)"
        for k
      proof (cases "k = lastSn w + 1")
        case True
        with assms inorder show ?thesis by (simp add: seen_def)
      next
        case False
        then have "lastSn w < k \<longleftrightarrow> lastSn w + 1 < k" by linarith
        with assms inorder False show ?thesis by (simp add: seen_def)
      qed
      show "deliveries ?w' = out @ map payload [1..lastSn ?w']"
        using assms inorder by (simp add: seen_def deliveries_dispatchEvent upto_snoc)
    qed
    from processEventBuffer_seen [OF this] inorder show ?thesis
      by (simp add: handleEvent_def event_signal_def)
  next
    case gap
    then have "handleEvent (event_signal payload n) w
                 = w\<lparr>buffer := AList.update n (event_signal payload n) (buffer w)\<rparr>"
      by (simp add: handleEvent_def event_signal_def)
    with assms gap show ?thesis
      by (auto simp: seen_def update_conv)
  next
    case dup
    then have "handleEvent (event_signal payload n) w = w"
      by (simp add: handleEvent_def event_signal_def)
    with assms dup show ?thesis
      by (auto simp: seen_def)
  qed
qed

lemma observe_all_seen:
  "seen payload out S w \<Longrightarrow> lastSn w + 1 \<notin> S \<Longrightarrow>
   seen payload out (S \<union> set sns) (observe_all payload sns w)
   \<and> lastSn (observe_all payload sns w) + 1 \<notin> S \<union> set sns"
proof (induction sns arbitrary: S w)
  case Nil
  then show ?case by (simp add: observe_all_def)
next
  case (Cons n sns)
  from handleEvent_seen [OF Cons.prems, of n]
  have step: "seen payload out (insert n S) (handleEvent (event_signal payload n) w)"
    and gap: "lastSn (handleEvent (event_signal payload n) w) + 1 \<notin> insert n S"
    by simp_all
  from Cons.IH [OF step gap] show ?case
    by (simp add: observe_all_def)
qed

lemma handleEvent_duplicate:
  "sig_sn sg = Some n \<Longrightarrow> n \<le> lastSn w \<Longrightarrow> handleEvent sg w = w"
  by (simp add: handleEvent_def)

lemma processEventBuffer_above:
  "\<forall>k \<in> fst ` set (buffer w). lastSn w < k \<Longrightarrow>
   \<forall>k \<in> fst ` set (buffer (processEventBuffer w)). lastSn (processEventBuffer w) + 1 < k"
proof (induction w rule: processEventBuffer.induct)
  case (1 w)
  show ?case
  proof (cases "map_of (buffer w) (lastSn w + 1)")
    case None
    then have absent: "lastSn w + 1 \<notin> fst ` set (buffer w)"
      by (simp add: map_of_eq_None_iff)
    have "lastSn w + 1 < k" if "k \<in> fst ` set (buffer w)" for k
    proof -
      from that "1.prems" have "lastSn w < k" by blast
      moreover from that absent have "k \<noteq> lastSn w + 1" by blast
      ultimately show ?thesis by linarith
    qed
    with None show ?thesis
      by (simp add: processEventBuffer.simps [of w])
  next
    case (Some sg)
    let ?w' = "dispatchEvent (sig_d sg)
                 (w\<lparr>buffer := AList.delete (lastSn w + 1) (buffer w), lastSn := lastSn w + 1\<rparr>)"
    have "lastSn ?w' < k" if "k \<in> fst ` set (buffer ?w')" for k
    proof -
      from that have k: "k \<in> fst ` set (AList.delete (lastSn w + 1) (buffer w))" by simp
      then have "k \<in> fst ` set (buffer w)"
        using dom_delete_subset [of "lastSn w + 1" "buffer w"] by blast
      moreover from k have "k \<noteq> lastSn w + 1"
        using delete_notin_dom [of "lastSn w + 1" "buffer w"] by blast
      ultimately have "k \<in> fst ` set (buffer w)" and "k \<noteq> lastSn w + 1" by simp_all
      with "1.prems" have "lastSn w < k" by blast
      with \<open>k \<noteq> lastSn w + 1\<close> show ?thesis by simp
    qed
    then have "\<forall>k \<in> fst ` set (buffer ?w'). lastSn ?w' < k" by blast
    from "1.IH" [OF Some this] Some show ?thesis
      by (simp add: processEventBuffer.simps [of w])
  qed
qed

lemma handleEvent_above:
  assumes "\<forall>k \<in> fst ` set (buffer w). lastSn w + 1 < k"
  shows "\<forall>k \<in> fst ` set (buffer (handleEvent sg w)). lastSn (handleEvent sg w) + 1 < k"
proof (cases "sig_sn sg")
  case None
  with assms show ?thesis by (simp add: handleEvent_def)
next
  case (Some n)
  consider (inorder) "n = lastSn w + 1" | (gap) "lastSn w + 1 < n" | (dup) "n \<le> lastSn w"
    by linarith
  then show ?thesis
  proof cases
    case inorder
    let ?w' = "dispatchEvent (sig_d sg) (w\<lparr>lastSn := n\<rparr>)"
    from assms inorder have "\<forall>k \<in> fst ` set (buffer ?w'). lastSn ?w' < k" by simp
    from processEventBuffer_above [OF this] Some inorder show ?thesis
      by (simp add: handleEvent_def)
  next
    case gap
    with Some have "handleEvent sg w = w\<lparr>buffer := AList.update n sg (buffer w)\<rparr>"
      by (simp add: handleEvent_def)
    with assms gap show ?thesis
      by (auto simp: dom_update)
  next
    case dup
    with Some have "handleEvent sg w = w" by (simp add: handleEvent_def)
    with assms show ?thesis by simp
  qed
qed

lemma handleReconnect_reset:
  "lastSn (handleReconnect w) = 0 \<and> buffer (handleReconnect w) = []"
  by (simp add: handleReconnect_def Let_def connectFresh_def emit_def clearPongTimeout_def
      clearHeartbeat_def clearTimer_def ws_close_def set_readyState_def readyState_of_def
      split: option.splits)

lemma reassemble_above:
  assumes "\<forall>k \<in> fst ` set (buffer w). lastSn w + 1 < k"
  shows "\<forall>k \<in> fst ` set (buffer (reassemble w op)). lastSn (reassemble w op) + 1 < k"
proof (cases op)
  case (Observe sg)
  with handleEvent_above [OF assms] show ?thesis by simp
next
  case Drain
  from assms have "\<forall>k \<in> fst ` set (buffer w). lastSn w < k" by fastforce
  from processEventBuffer_above [OF this] Drain show ?thesis by simp
next
  case Reset
  with handleReconnect_reset [of w] show ?thesis by simp
qed

lemma foldl_reassemble_above:
  "\<forall>k \<in> fst ` set (buffer w). lastSn w + 1 < k \<Longrightarrow>
   \<forall>k \<in> fst ` set (buffer (foldl reassemble w ops)). lastSn (foldl reassemble w ops) + 1 < k"
  by (induction ops arbitrary: w) (simp_all add: reassemble_above)

lemma observed_fresh:
  "lastSn (observe_all numbered [3, 1, 2, 2, 1] fresh) = 3"
  by (simp add: model_defs scenario_defs processEventBuffer.simps)

text \<open>
  Claim C1. Let \<^verbatim>\<open>handleEvent\<close> be called on EVENT signals whose sequence numbers, in any
  order and with any repetitions, are exactly the numbers \<open>1..N\<close>, starting with
  \<open>lastSn = 0\<close> and an empty buffer. Then the payloads given to \<^verbatim>\<open>onEvent\<close> are
  \<open>payload 1, \<dots>, payload N\<close> in this order, each once. And one call with \<open>sn \<le> lastSn\<close>
  delivers nothing and changes nothing: neither \<open>lastSn\<close> nor the buffer.
\<close>

theorem in_order_delivery:
  "(set sns = {1..N} \<and> lastSn w = 0 \<and> buffer w = [] \<longrightarrow>
      deliveries (observe_all payload sns w) = deliveries w @ map payload [1..N])
   \<and> (sig_sn sg = Some n \<and> n \<le> lastSn w' \<longrightarrow>
      handleEvent sg w' = w' \<and> deliveries (handleEvent sg w') = deliveries w')"
proof (intro conjI impI)
  assume a: "set sns = {1..N} \<and> lastSn w = 0 \<and> buffer w = []"
  then have "seen payload (deliveries w) {} w"
    by (simp add: seen_def)
  moreover from a have "lastSn w + 1 \<notin> {}" by simp
  ultimately have s: "seen payload (deliveries w) ({} \<union> set sns) (observe_all payload sns w)"
    and g: "lastSn (observe_all payload sns w) + 1 \<notin> {} \<union> set sns"
    using observe_all_seen by blast+
  let ?l = "lastSn (observe_all payload sns w)"
  from s a have l0: "0 \<le> ?l" and low: "\<forall>k. 1 \<le> k \<and> k \<le> ?l \<longrightarrow> k \<in> {1..N}"
    by (simp_all add: seen_def)
  from g a have high: "?l + 1 \<notin> {1..N}" by simp
  have "[1..?l] = [1..N]"
  proof (cases "1 \<le> ?l")
    case True
    with low have "?l \<le> N" by simp
    with high l0 have "?l = N" by simp
    then show ?thesis by simp
  next
    case False
    with l0 high show ?thesis by simp
  qed
  with s show "deliveries (observe_all payload sns w) = deliveries w @ map payload [1..N]"
    by (simp add: seen_def)
next
  assume "sig_sn sg = Some n \<and> n \<le> lastSn w'"
  then show "handleEvent sg w' = w'"
    by (simp add: handleEvent_duplicate)
next
  assume "sig_sn sg = Some n \<and> n \<le> lastSn w'"
  then show "deliveries (handleEvent sg w') = deliveries w'"
    by (simp add: handleEvent_duplicate)
qed

text \<open>
  Claim C1 at a concrete input: the sequence numbers arrive as 3, 1, 2, 2, 1, and 2 is
  observed once more afterwards.
\<close>

theorem in_order_delivery_witness:
  "set [3, 1, 2, 2, 1] = {1..3::int} \<and> lastSn fresh = 0 \<and> buffer fresh = []
   \<and> deliveries (observe_all numbered [3, 1, 2, 2, 1] fresh) = [numbered 1, numbered 2, numbered 3]
   \<and> sig_sn (event_signal numbered 2) = Some 2
   \<and> 2 \<le> lastSn (observe_all numbered [3, 1, 2, 2, 1] fresh)
   \<and> handleEvent (event_signal numbered 2) (observe_all numbered [3, 1, 2, 2, 1] fresh)
       = observe_all numbered [3, 1, 2, 2, 1] fresh"
proof -
  have upto3: "[1..3::int] = [1, 2, 3]"
    by (simp add: upto_rec1)
  have "{1..3::int} = set [1..3]"
    by (rule set_upto [symmetric])
  then have cover: "set [3, 1, 2, 2, 1] = {1..3::int}"
    unfolding upto3 by auto
  have start: "lastSn fresh = 0 \<and> buffer fresh = [] \<and> deliveries fresh = []"
    by (simp add: fresh_def new_client_def deliveries_def)
  have dup: "sig_sn (event_signal numbered 2) = Some 2
             \<and> 2 \<le> lastSn (observe_all numbered [3, 1, 2, 2, 1] fresh)"
    by (simp add: observed_fresh) (simp add: event_signal_def)
  from in_order_delivery [of "[3, 1, 2, 2, 1]" 3 fresh numbered "event_signal numbered 2" 2
      "observe_all numbered [3, 1, 2, 2, 1] fresh"] cover start dup upto3
  show ?thesis by simp
qed

text \<open>
  Claim C5. Start with \<open>lastSn = 0\<close> and an empty buffer and apply \<^verbatim>\<open>handleEvent\<close>,
  \<^verbatim>\<open>processEventBuffer\<close> and \<^verbatim>\<open>handleReconnect\<close> in any order, any number of times.
  Then every key of the buffer is greater than \<open>lastSn\<close>.
\<close>

theorem buffer_keys_above_lastSn:
  "lastSn w = 0 \<and> buffer w = [] \<longrightarrow>
   (\<forall>k \<in> fst ` set (buffer (foldl reassemble w ops)). lastSn (foldl reassemble w ops) < k)"
proof
  assume "lastSn w = 0 \<and> buffer w = []"
  then have "\<forall>k \<in> fst ` set (buffer w). lastSn w + 1 < k" by simp
  from foldl_reassemble_above [OF this, of ops]
  show "\<forall>k \<in> fst ` set (buffer (foldl reassemble w ops)). lastSn (foldl reassemble w ops) < k"
    by fastforce
qed

text \<open>Claim C5 at a concrete input: 4 and 1 are observed, the buffer is drained, 6 is observed.\<close>

theorem buffer_keys_above_lastSn_witness:
  "lastSn fresh = 0 \<and> buffer fresh = []
   \<and> fst ` set (buffer (foldl reassemble fresh
        [Observe (event_signal numbered 4), Observe (event_signal numbered 1), Drain,
         Observe (event_signal numbered 6)])) = {4, 6}
   \<and> lastSn (foldl reassemble fresh
        [Observe (event_signal numbered 4), Observe (event_signal numbered 1), Drain,
         Observe (event_signal numbered 6)]) = 1
   \<and> (1::int) < 4 \<and> (1::int) < 6"
proof -
  let ?w = "foldl reassemble fresh
        [Observe (event_signal numbered 4), Observe (event_signal numbered 1), Drain,
         Observe (event_signal numbered 6)]"
  have start: "lastSn fresh = 0 \<and> buffer fresh = []"
    by (simp add: fresh_def new_client_def)
  have keys: "fst ` set (buffer ?w) = {4, 6}" and last: "lastSn ?w = 1"
    by (simp_all add: model_defs scenario_defs processEventBuffer.simps)
  from buffer_keys_above_lastSn [of fresh "[Observe (event_signal numbered 4),
      Observe (event_signal numbered 1), Drain, Observe (event_signal numbered 6)]"] start keys last
  show ?thesis by simp
qed

text \<open>
  Claim C10. \<^verbatim>\<open>handleEvent\<close> on a signal without \<^verbatim>\<open>sn\<close> returns at once: nothing is
  delivered, \<open>lastSn\<close> and the buffer are as before, and so is everything else.
\<close>

theorem event_without_sn_dropped:
  "sig_sn signal = None \<longrightarrow>
     handleEvent signal w = w \<and> deliveries (handleEvent signal w) = deliveries w
     \<and> lastSn (handleEvent signal w) = lastSn w \<and> buffer (handleEvent signal w) = buffer w"
  by (simp add: handleEvent_def)

text \<open>Claim C10 at a concrete input: an EVENT signal without \<^verbatim>\<open>sn\<close> after the handshake.\<close>

theorem event_without_sn_dropped_witness:
  "sig_sn (pong_signal\<lparr>sig_s := SIGNAL_EVENT\<rparr>) = None
   \<and> handleEvent (pong_signal\<lparr>sig_s := SIGNAL_EVENT\<rparr>) established = established"
  using event_without_sn_dropped [of "pong_signal\<lparr>sig_s := SIGNAL_EVENT\<rparr>" established]
  by (simp add: pong_signal_def)

subsection \<open>Resume and reconnect\<close>

text \<open>
  Claim C2. \<^verbatim>\<open>handleResumeAck\<close> leaves \<open>lastSn\<close> and the buffer as they are: it sets
  \<open>sessionId\<close> and restarts the heartbeat (a new interval timer, one more random number
  drawn), and no other field changes. \<^verbatim>\<open>handleReconnect\<close> sets \<open>lastSn\<close> to 0 and empties
  the buffer.
\<close>

theorem resume_keeps_reconnect_resets:
  "(handleResumeAck d w)\<lparr>sessionId := sessionId w, heartbeatTimer := heartbeatTimer w,
       timers := timers w, next_id := next_id w, drawn := drawn w\<rparr> = w
   \<and> lastSn (handleResumeAck d w) = lastSn w
   \<and> buffer (handleResumeAck d w) = buffer w
   \<and> sessionId (handleResumeAck d w) = d_session_id d
   \<and> heartbeatTimer (handleResumeAck d w) = Some (next_id w)
   \<and> pending HeartbeatTick (handleResumeAck d w) =
        filter (\<lambda>t. Some (t_id t) \<noteq> heartbeatTimer w) (pending HeartbeatTick w)
        @ [\<lparr>t_id = next_id w,
            t_due = now w + nat (interval_of (random w (drawn w))),
            t_every = Some (nat (interval_of (random w (drawn w)))),
            t_cb = HeartbeatTick\<rparr>]
   \<and> lastSn (handleReconnect w) = 0
   \<and> buffer (handleReconnect w) = []"
  by (auto simp: handleResumeAck_def startHeartbeat_def Let_def setInterval_def clearHeartbeat_def
      clearTimer_def handleReconnect_reset pending_def Math_random_def split: option.splits
      intro: filter_cong)

text \<open>
  Claim C2 at a concrete input: after the handshake, 5 and 1 have been observed, then
  RESUME_ACK arrives, or the reconnect happens.
\<close>

theorem resume_keeps_reconnect_resets_witness:
  "lastSn (handleResumeAck (numbered 0) (observe_all numbered [5, 1] established)) = 1
   \<and> map fst (buffer (handleResumeAck (numbered 0) (observe_all numbered [5, 1] established))) = [5]
   \<and> lastSn (handleReconnect (observe_all numbered [5, 1] established)) = 0
   \<and> buffer (handleReconnect (observe_all numbered [5, 1] established)) = []"
proof -
  have "lastSn (observe_all numbered [5, 1] established) = 1
        \<and> map fst (buffer (observe_all numbered [5, 1] established)) = [5]"
    by (simp add: model_defs scenario_defs processEventBuffer.simps)
  with resume_keeps_reconnect_resets
      [where d = "numbered 0" and w = "observe_all numbered [5, 1] established"]
  show ?thesis by simp
qed

subsection \<open>Reconnection backoff\<close>

text \<open>
  Claim C4. The delay of reconnection attempt \<open>n \<ge> 1\<close> is \<open>min 60000 (1000 * 2^(n-1))\<close>
  milliseconds: 1000 for the first attempt, 16000 for the fifth, 60000 for the tenth, and
  never less for a later attempt than for an earlier one. It is the time that
  \<^verbatim>\<open>reconnectWithBackoff\<close> sleeps once it has counted the attempt.
\<close>

theorem backoff_delay:
  "(1 \<le> n \<longrightarrow> backoff_ms n = min 60000 (1000 * 2 ^ (n - 1)))
   \<and> backoff_ms 1 = 1000 \<and> backoff_ms 5 = 16000 \<and> backoff_ms 10 = 60000
   \<and> (1 \<le> m \<and> m \<le> n \<longrightarrow> backoff_ms m \<le> backoff_ms n)
   \<and> (\<not> stopped w \<and> reconnectAttempts w + 1 = n \<longrightarrow>
        reconnectAttempts (reconnectWithBackoff w) = n
        \<and> timers (reconnectWithBackoff w) =
            timers w @ [\<lparr>t_id = next_id w, t_due = now w + min 60000 (1000 * 2 ^ (n - 1)),
                         t_every = None, t_cb = BackoffDone\<rparr>])"
  by (auto simp: backoff_ms_def min_le_iff_disj diff_le_mono reconnectWithBackoff_def Let_def
      sleep_def setTimeout_def)

text \<open>Claim C4 at a concrete input: the third attempt of a client that has failed twice.\<close>

theorem backoff_delay_witness:
  "(1::nat) \<le> 3 \<and> backoff_ms 3 = 4000 \<and> (1::nat) \<le> 2 \<and> (2::nat) \<le> 3
   \<and> backoff_ms 2 \<le> backoff_ms 3
   \<and> \<not> stopped (fresh\<lparr>reconnectAttempts := 2\<rparr>)
   \<and> reconnectAttempts (reconnectWithBackoff (fresh\<lparr>reconnectAttempts := 2\<rparr>)) = 3
   \<and> timers (reconnectWithBackoff (fresh\<lparr>reconnectAttempts := 2\<rparr>)) =
        [\<lparr>t_id = 0, t_due = 4000, t_every = None, t_cb = BackoffDone\<rparr>]"
proof -
  have "\<not> stopped (fresh\<lparr>reconnectAttempts := 2\<rparr>)
        \<and> reconnectAttempts (fresh\<lparr>reconnectAttempts := 2\<rparr>) + 1 = 3
        \<and> timers (fresh\<lparr>reconnectAttempts := 2\<rparr>) = []
        \<and> next_id (fresh\<lparr>reconnectAttempts := 2\<rparr>) = 0
        \<and> now (fresh\<lparr>reconnectAttempts := 2\<rparr>) = 0"
    by (simp add: fresh_def new_client_def)
  with backoff_delay [of 3 2 "fresh\<lparr>reconnectAttempts := 2\<rparr>"]
  show ?thesis by simp
qed

subsection \<open>Decoding frames\<close>

text \<open>
  Claim C9, as the code has it. When the client was created with compression and the
  frame is one \<^verbatim>\<open>Buffer\<close>, \<^verbatim>\<open>parseMessage\<close> tries \<^verbatim>\<open>inflate\<close> first and, when that
  fails, reads the frame as text; without compression it reads the frame as text and
  never calls \<^verbatim>\<open>inflate\<close>. An \<^verbatim>\<open>ArrayBuffer\<close> is read as text and a list of
  \<^verbatim>\<open>Buffer\<close>s as the text of their concatenation, with or without compression and
  whatever \<^verbatim>\<open>inflate\<close> would make of them. A text that \<^verbatim>\<open>JSON.parse\<close> accepts gives its
  value and leaves the client as it was; a text that \<^verbatim>\<open>JSON.parse\<close> rejects gives
  \<^verbatim>\<open>null\<close> and one call of \<^verbatim>\<open>options.error\<close>, and the message handler then leaves the
  client as it was. \<^verbatim>\<open>parseMessage\<close> never throws.
\<close>

theorem decode_frame:
  "(compress w \<and> inflate w b = Some inflated \<longrightarrow> frame_text (Buffer b) w = inflated)
   \<and> (compress w \<and> inflate w b = None \<longrightarrow> frame_text (Buffer b) w = b)
   \<and> (\<not> compress w \<longrightarrow> frame_text (Buffer b) w = b)
   \<and> frame_text (ArrayBuffer b) w = b
   \<and> frame_text (BufferArray bs) w = concat bs
   \<and> (JSON_parse w (frame_text data w) = Some v \<longrightarrow> parseMessage data w = (Returns v, w))
   \<and> (JSON_parse w (frame_text data w) = None \<longrightarrow>
        parseMessage data w = (Returns None, emit (Error ''kook ws: failed to parse JSON'') w)
        \<and> on_message k data w = emit (Error ''kook ws: failed to parse JSON'') w)
   \<and> fst (parseMessage data w) \<noteq> Throws"
  by (simp add: frame_text_def parseMessage_def on_message_def Let_def split: option.splits)

text \<open>
  Claim C9 at concrete inputs: a plain frame and an undecodable frame with compression on;
  the frame \<open>''x''\<close>, which \<^verbatim>\<open>inflate\<close> turns into \<open>''hello''\<close>, as a \<^verbatim>\<open>Buffer\<close> with
  compression on, as an \<^verbatim>\<open>ArrayBuffer\<close> with compression on, and as a \<^verbatim>\<open>Buffer\<close> with
  compression off; and the text \<open>''hello''\<close> in two \<^verbatim>\<open>Buffer\<close>s.
\<close>

theorem decode_frame_witness:
  "compress fresh \<and> inflate fresh ''hello'' = None \<and> frame_text (Buffer ''hello'') fresh = ''hello''
   \<and> parseMessage (Buffer ''hello'') fresh = (Returns (Some hello_signal), fresh)
   \<and> JSON_parse fresh (frame_text (Buffer ''junk'') fresh) = None
   \<and> on_message 0 (Buffer ''junk'') fresh = emit (Error ''kook ws: failed to parse JSON'') fresh
   \<and> compress (fresh\<lparr>inflate := inflate_x\<rparr>)
   \<and> inflate (fresh\<lparr>inflate := inflate_x\<rparr>) ''x'' = Some ''hello''
   \<and> frame_text (Buffer ''x'') (fresh\<lparr>inflate := inflate_x\<rparr>) = ''hello''
   \<and> frame_text (ArrayBuffer ''x'') (fresh\<lparr>inflate := inflate_x\<rparr>) = ''x''
   \<and> parseMessage (ArrayBuffer ''x'') (fresh\<lparr>inflate := inflate_x\<rparr>)
        = (Returns None,
           emit (Error ''kook ws: failed to parse JSON'') (fresh\<lparr>inflate := inflate_x\<rparr>))
   \<and> frame_text (BufferArray [''he'', ''llo'']) fresh = ''hello''
   \<and> parseMessage (BufferArray [''he'', ''llo'']) fresh = (Returns (Some hello_signal), fresh)
   \<and> \<not> compress plain \<and> frame_text (Buffer ''x'') plain = ''x''"
proof -
  have a: "compress fresh \<and> inflate fresh ''hello'' = None"
    by (simp add: fresh_def new_client_def no_inflate_def)
  have b: "JSON_parse fresh ''hello'' = Some (Some hello_signal) \<and> JSON_parse fresh ''junk'' = None
           \<and> inflate fresh ''junk'' = None"
    by (simp add: fresh_def new_client_def json_def no_inflate_def)
  have c: "compress (fresh\<lparr>inflate := inflate_x\<rparr>)
           \<and> inflate (fresh\<lparr>inflate := inflate_x\<rparr>) ''x'' = Some ''hello''
           \<and> JSON_parse (fresh\<lparr>inflate := inflate_x\<rparr>) ''x'' = None"
    by (simp add: fresh_def new_client_def inflate_x_def json_def)
  have d: "\<not> compress plain"
    by (simp add: plain_def new_client_def)
  from decode_frame [where w = fresh and b = "''hello''" and inflated = "''hello''"
        and data = "Buffer ''hello''" and v = "Some hello_signal" and k = 0
        and bs = "[''he'', ''llo'']"]
    decode_frame [where w = fresh and b = "''junk''" and inflated = "''junk''"
        and data = "Buffer ''junk''" and v = None and k = 0 and bs = "[]"]
    decode_frame [where w = fresh and b = "''hello''" and inflated = "''hello''"
        and data = "BufferArray [''he'', ''llo'']" and v = "Some hello_signal" and k = 0
        and bs = "[''he'', ''llo'']"]
    decode_frame [where w = "fresh\<lparr>inflate := inflate_x\<rparr>" and b = "''x''"
        and inflated = "''hello''" and data = "ArrayBuffer ''x''" and v = None and k = 0
        and bs = "[]"]
    decode_frame [where w = plain and b = "''x''" and inflated = "''x''" and data = "Buffer ''x''"
        and v = None and k = 0 and bs = "[]"]
    a b c d
  show ?thesis by simp
qed

text \<open>
  Claim C9 as stated fails for a client created with \<^verbatim>\<open>compress: false\<close>: the frame
  \<open>''x''\<close> inflates to a text that parses, and \<^verbatim>\<open>parseMessage\<close> returns \<^verbatim>\<open>null\<close>, since
  it never tries to inflate.
\<close>

theorem decode_frame_counterexample:
  "\<not> compress plain \<and> inflate plain ''x'' = Some ''hello''
   \<and> JSON_parse plain ''hello'' = Some (Some hello_signal)
   \<and> parseMessage (Buffer ''x'') plain
        = (Returns None, emit (Error ''kook ws: failed to parse JSON'') plain)"
  by (simp add: plain_def inflate_x_def model_defs scenario_defs)

subsection \<open>The RECONNECT signal\<close>

text \<open>
  Claim C6, as the code has it. On a RECONNECT signal, with a socket \<open>k\<close> and not
  stopped, the client sets \<open>lastSn\<close> to 0, forgets the session, empties the buffer, closes
  the socket with code 1000 and drops it, clears the heartbeat and pong timers, and asks
  for a new gateway URL at once: at the same time, with no timer added and
  \<open>reconnectAttempts\<close> as before.
\<close>

theorem reconnect_signal_restarts:
  "sig_s signal = SIGNAL_RECONNECT \<and> ws w = Some k \<and> \<not> stopped w \<longrightarrow>
     lastSn (handleSignal signal w) = 0
     \<and> sessionId (handleSignal signal w) = None
     \<and> buffer (handleSignal signal w) = []
     \<and> ws (handleSignal signal w) = None
     \<and> heartbeatTimer (handleSignal signal w) = None
     \<and> pongTimeout (handleSignal signal w) = None
     \<and> trace (handleSignal signal w) =
          trace w @ [(now w, Close k (Some 1000)), (now w, GetGateway (if compress w then 1 else 0))]
     \<and> now (handleSignal signal w) = now w
     \<and> reconnectAttempts (handleSignal signal w) = reconnectAttempts w
     \<and> timers (handleSignal signal w) =
          filter (\<lambda>t. Some (t_id t) \<noteq> heartbeatTimer w \<and> Some (t_id t) \<noteq> pongTimeout w) (timers w)"
proof (intro impI, elim conjE)
  assume s: "sig_s signal = SIGNAL_RECONNECT" and k: "ws w = Some k" and run: "\<not> stopped w"
  have split: "(\<lambda>t. Some (t_id t) \<noteq> Some h \<and> Some (t_id t) \<noteq> Some p)
                 = (\<lambda>t. t_id t \<noteq> h \<and> t_id t \<noteq> p)" for h p :: nat
    by auto
  from s have "handleSignal signal w = handleReconnect w"
    by (simp add: handleSignal_def SIGNAL_EVENT_def SIGNAL_PONG_def SIGNAL_RECONNECT_def)
  with k run show "lastSn (handleSignal signal w) = 0
     \<and> sessionId (handleSignal signal w) = None
     \<and> buffer (handleSignal signal w) = []
     \<and> ws (handleSignal signal w) = None
     \<and> heartbeatTimer (handleSignal signal w) = None
     \<and> pongTimeout (handleSignal signal w) = None
     \<and> trace (handleSignal signal w) =
          trace w @ [(now w, Close k (Some 1000)), (now w, GetGateway (if compress w then 1 else 0))]
     \<and> now (handleSignal signal w) = now w
     \<and> reconnectAttempts (handleSignal signal w) = reconnectAttempts w
     \<and> timers (handleSignal signal w) =
          filter (\<lambda>t. Some (t_id t) \<noteq> heartbeatTimer w \<and> Some (t_id t) \<noteq> pongTimeout w) (timers w)"
    by (cases "heartbeatTimer w"; cases "pongTimeout w")
       (simp_all add: handleReconnect_def Let_def connectFresh_def emit_def
          clearPongTimeout_def clearHeartbeat_def clearTimer_def ws_close_def set_readyState_def
          readyState_of_def conj_commute)
qed

text \<open>Claim C6 at a concrete input: RECONNECT arrives 30 seconds after the handshake.\<close>

theorem reconnect_signal_restarts_witness:
  "sig_s reconnect_signal = SIGNAL_RECONNECT \<and> ws connected_30s = Some 0
   \<and> \<not> stopped connected_30s
   \<and> lastSn (handleSignal reconnect_signal connected_30s) = 0
   \<and> ws (handleSignal reconnect_signal connected_30s) = None
   \<and> trace (handleSignal reconnect_signal connected_30s) =
        trace connected_30s @ [(30000, Close 0 (Some 1000)), (30000, GetGateway 1)]"
proof -
  have "sig_s reconnect_signal = SIGNAL_RECONNECT \<and> ws connected_30s = Some 0
        \<and> \<not> stopped connected_30s \<and> now connected_30s = 30000 \<and> compress connected_30s"
    by (simp add: connected_30s_def model_defs scenario_defs Let_def)
  with reconnect_signal_restarts [of reconnect_signal connected_30s 0]
  show ?thesis by simp
qed

text \<open>
  Claim C6 as stated fails: it has the client wait for the backoff delay before it
  connects again. 30 seconds after the handshake RECONNECT arrives; the request for the
  gateway URL goes out at 30000, no timer is pending, and no attempt has been counted.
\<close>

theorem reconnect_signal_counterexample:
  "now connected_30s = 30000
   \<and> trace (on_message 0 (Buffer ''reconnect'') connected_30s) =
        trace connected_30s @ [(30000, Close 0 (Some 1000)), (30000, GetGateway 1)]
   \<and> timers (on_message 0 (Buffer ''reconnect'') connected_30s) = []
   \<and> reconnectAttempts (on_message 0 (Buffer ''reconnect'') connected_30s) = 0"
  by (simp add: connected_30s_def model_defs scenario_defs Let_def)

subsection \<open>The handshake timeout\<close>

text \<open>
  Whenever the promise of \<^verbatim>\<open>connect\<close> for socket \<open>k\<close> is still pending and the client is
  not stopped, \<^verbatim>\<open>helloTimeout\<close> followed by the \<^verbatim>\<open>close\<close> event of the socket counts two
  attempts.
\<close>

lemma hello_timeout_two_attempts:
  assumes "\<not> stopped w" and "\<not> settled k w"
  shows "reconnectAttempts (on_close k (set_readyState k CLOSED (helloTimeout_fired k w)))
           = reconnectAttempts w + 2"
proof -
  from assms(2) have k: "k < length (conns w)" "\<not> c_settled (conns w ! k)"
    by (auto simp: settled_def split: if_splits)
  let ?w1 = "ws_close k None (emit (Error ''kook ws: HELLO timeout (6s)'') w)"
  from k have s1: "\<not> settled k ?w1" and r1: "\<not> stopped ?w1 \<longleftrightarrow> \<not> stopped w"
    and a1: "reconnectAttempts ?w1 = reconnectAttempts w"
    by (auto simp: ws_close_def emit_def set_readyState_def readyState_of_def settled_def Let_def)
  with assms(1) have fired: "\<not> stopped (helloTimeout_fired k w)
      \<and> reconnectAttempts (helloTimeout_fired k w) = reconnectAttempts w + 1"
    by (simp add: helloTimeout_fired_def reject_def connectFresh_catch_def settle_def emit_def
        reconnectWithBackoff_def sleep_def setTimeout_def Let_def)
  let ?w2 = "set_readyState k CLOSED (helloTimeout_fired k w)"
  from fired have c: "\<not> stopped ?w2 \<and> reconnectAttempts ?w2 = reconnectAttempts w + 1"
    by (simp add: set_readyState_def)
  have keep: "stopped (clearPongTimeout (clearHeartbeat (clear_helloTimeout k v))) = stopped v
      \<and> reconnectAttempts (clearPongTimeout (clearHeartbeat (clear_helloTimeout k v)))
          = reconnectAttempts v" for v :: "'a world"
    by (simp add: clearPongTimeout_def clearHeartbeat_def clear_helloTimeout_def clearTimer_def
        split: option.splits)
  from c keep [of ?w2] show ?thesis
    by (simp add: on_close_def Let_def reconnectWithBackoff_def sleep_def setTimeout_def)
qed

text \<open>
  Claim C7 does not hold of the code. When \<^verbatim>\<open>helloTimeout\<close> fires it rejects the promise
  of \<^verbatim>\<open>connect\<close>, so the \<^verbatim>\<open>catch\<close> block of \<^verbatim>\<open>connectFresh\<close> calls
  \<^verbatim>\<open>reconnectWithBackoff\<close>; it also closes the socket, whose \<^verbatim>\<open>close\<close> handler calls
  \<^verbatim>\<open>reconnectWithBackoff\<close> again. One missed HELLO counts two attempts and leaves two
  backoff sleeps pending.
\<close>

theorem hello_timeout_counted_twice:
  "reconnectAttempts (run fresh [Start, GatewayUrl ''gateway'', WsOpen 0]) = 0
   \<and> reconnectAttempts (run fresh [Start, GatewayUrl ''gateway'', WsOpen 0, Timer]) = 1
   \<and> reconnectAttempts (run fresh hello_timeout) = 2
   \<and> timers (run fresh hello_timeout) =
        [\<lparr>t_id = 1, t_due = 7000, t_every = None, t_cb = BackoffDone\<rparr>,
         \<lparr>t_id = 2, t_due = 8000, t_every = None, t_cb = BackoffDone\<rparr>]
   \<and> trace (run fresh hello_timeout) =
        [(0, GetGateway 1), (0, NewWebSocket 0 ''gateway''),
         (6000, Error ''kook ws: HELLO timeout (6s)''), (6000, Close 0 None),
         (6000, Error ''kook ws: failed to get gateway'')]"
  by (simp add: hello_timeout_def model_defs scenario_defs Let_def)

subsection \<open>The heartbeat interval\<close>

lemma interval_bounds:
  assumes "0 \<le> r" "r < 1"
  shows "25000 \<le> interval_of r \<and> interval_of r \<le> 34999"
proof -
  from assms have "0 \<le> r * 10000" "r * 10000 < 10000" by simp_all
  then have "0 \<le> \<lfloor>r * 10000\<rfloor>" "\<lfloor>r * 10000\<rfloor> < 10000"
    by (simp_all add: floor_less_iff)
  then show ?thesis
    by (simp add: interval_of_def jitter_of_def HEARTBEAT_INTERVAL_MS_def HEARTBEAT_JITTER_MS_def
        mult.assoc)
qed




subsection \<open>Recovery after a heartbeat timeout\<close>

text \<open>
  Each timer that fires in one of the three states leads to the next one, and adds
  nothing to the trace but a PING.
\<close>

lemma fire_probe_due:
  assumes "probing w" "probe_due w"
  shows "probing (fire w) \<and> escalations (fire w) = escalations w"
proof -
  from assms(1) obtain k where k: "ws w = Some k" "k < length (conns w)" "c_state (conns w ! k) = OPEN"
    and run: "\<not> stopped w" and rnd: "\<forall>n. 0 \<le> random w n \<and> random w n < 1"
    by (auto simp: probing_def readyState_of_def split: if_splits)
  from assms(2) obtain a hb where pt: "pongTimeout w = None" and a: "a < next_id w"
    and hb: "beat w 8000 hb" and ahb: "a \<notin> t_id ` set hb"
    and ts: "timers w = \<lparr>t_id = a, t_due = now w + 2000, t_every = None, t_cb = ProbeSleepDone 0\<rparr> # hb"
    by (auto simp: probe_due_def)
  from hb show ?thesis
    unfolding beat_def
  proof (elim disjE conjE exE)
    assume "heartbeatTimer w = None" "hb = []"
    with k run rnd pt a ahb ts show ?thesis
      by (auto simp: fire_def run_callback_def probe_slept_def sendPing_def Let_def
          readyState_of_def emit_def clearPongTimeout_def setTimeout_def sleep_def PONG_TIMEOUT_MS_def
          probing_def probe_sent_def beat_def escalations_def)
  next
    fix h due ms
    assume "heartbeatTimer w = Some h" "h < next_id w" "now w + 8000 < due"
      "hb = [\<lparr>t_id = h, t_due = due, t_every = Some ms, t_cb = HeartbeatTick\<rparr>]"
    with k run rnd pt a ahb ts show ?thesis
      by (auto simp: fire_def run_callback_def probe_slept_def sendPing_def Let_def
          readyState_of_def emit_def clearPongTimeout_def setTimeout_def sleep_def PONG_TIMEOUT_MS_def
          probing_def probe_sent_def beat_def escalations_def)
  qed
qed

lemma fire_probe_sent:
  assumes "probing w" "probe_sent w"
  shows "probing (fire w) \<and> escalations (fire w) = escalations w"
proof -
  from assms(1) obtain k where k: "ws w = Some k" "k < length (conns w)" "c_state (conns w ! k) = OPEN"
    and run: "\<not> stopped w" and rnd: "\<forall>n. 0 \<le> random w n \<and> random w n < 1"
    by (auto simp: probing_def readyState_of_def split: if_splits)
  from assms(2) obtain p q hb where pt: "pongTimeout w = Some p" and pq: "p < q" "q < next_id w"
    and hb: "beat w 6000 hb" and fresh: "p \<notin> t_id ` set hb" "q \<notin> t_id ` set hb"
    and ts: "timers w = hb @ [\<lparr>t_id = p, t_due = now w + 6000, t_every = None, t_cb = PongTimeout\<rparr>,
                         \<lparr>t_id = q, t_due = now w + 6000, t_every = None, t_cb = ProbeWaitDone 0\<rparr>]"
    by (auto simp: probe_sent_def)
  from hb show ?thesis
    unfolding beat_def
  proof (elim disjE conjE exE)
    assume "heartbeatTimer w = None" "hb = []"
    with k run rnd pt pq fresh ts show ?thesis
      by (auto simp: fire_def run_callback_def attemptRecovery_def probe_loop_def Let_def
          readyState_of_def emit_def clearPongTimeout_def clearHeartbeat_def clearTimer_def
          setTimeout_def sleep_def
          probing_def probe_nested_def escalations_def)
  next
    fix h due ms
    assume "heartbeatTimer w = Some h" "h < next_id w" "now w + 6000 < due"
      "hb = [\<lparr>t_id = h, t_due = due, t_every = Some ms, t_cb = HeartbeatTick\<rparr>]"
    with k run rnd pt pq fresh ts show ?thesis
      by (auto simp: fire_def run_callback_def attemptRecovery_def probe_loop_def Let_def
          readyState_of_def emit_def clearPongTimeout_def clearHeartbeat_def clearTimer_def
          setTimeout_def sleep_def
          probing_def probe_nested_def escalations_def)
  qed
qed

lemma fire_probe_nested:
  assumes "probing w" "probe_nested w"
  shows "probing (fire w) \<and> escalations (fire w) = escalations w"
proof -
  from assms(1) obtain k where k: "ws w = Some k" "k < length (conns w)" "c_state (conns w ! k) = OPEN"
    and run: "\<not> stopped w" and rnd: "\<forall>n. 0 \<le> random w n \<and> random w n < 1"
    by (auto simp: probing_def readyState_of_def split: if_splits)
  from assms(2) obtain q a where pt: "pongTimeout w = None" "heartbeatTimer w = None"
    and qa: "q < a" "a < next_id w"
    and ts: "timers w = [\<lparr>t_id = q, t_due = now w, t_every = None, t_cb = ProbeWaitDone 0\<rparr>,
                    \<lparr>t_id = a, t_due = now w + 2000, t_every = None, t_cb = ProbeSleepDone 0\<rparr>]"
    by (auto simp: probe_nested_def)
  from rnd interval_bounds [of "random w (drawn w)"]
  have iv: "25000 \<le> interval_of (random w (drawn w))" by simp
  with k run rnd pt qa ts show ?thesis
    by (auto simp: fire_def run_callback_def probe_waited_def startHeartbeat_def Let_def
        readyState_of_def emit_def clearHeartbeat_def clearTimer_def Math_random_def
        setInterval_def probing_def probe_due_def beat_def escalations_def)
qed

lemma fire_probing:
  "probing w \<Longrightarrow> probing (fire w) \<and> escalations (fire w) = escalations w"
  using fire_probe_due fire_probe_sent fire_probe_nested by (auto simp: probing_def)

lemma run_probing:
  "probing w \<Longrightarrow>
   probing (run w (replicate n Timer)) \<and> escalations (run w (replicate n Timer)) = escalations w"
proof (induction n arbitrary: w)
  case 0
  then show ?case by (simp add: run_def)
next
  case (Suc n)
  from fire_probing [OF Suc.prems] have "probing (fire w)" and e: "escalations (fire w) = escalations w"
    by simp_all
  from Suc.IH [OF this(1)] e show ?case
    by (simp add: run_def step_def)
qed

lemma timeout_state:
  "ws (run established [Timer, Timer]) = Some 0
   \<and> \<not> stopped (run established [Timer, Timer])
   \<and> random (run established [Timer, Timer]) = half
   \<and> pongTimeout (run established [Timer, Timer]) = None
   \<and> heartbeatTimer (run established [Timer, Timer]) = None
   \<and> now (run established [Timer, Timer]) = 36000
   \<and> next_id (run established [Timer, Timer]) = 4
   \<and> readyState_of 0 (run established [Timer, Timer]) = OPEN
   \<and> timers (run established [Timer, Timer]) =
        [\<lparr>t_id = 3, t_due = 38000, t_every = None, t_cb = ProbeSleepDone 0\<rparr>]"
  by (simp add: model_defs scenario_defs Let_def)

lemma timeout_probing: "probing (run established [Timer, Timer])"
  unfolding probing_def
proof (intro conjI)
  show "\<exists>k. ws (run established [Timer, Timer]) = Some k
             \<and> readyState_of k (run established [Timer, Timer]) = OPEN"
    using timeout_state by simp
  show "\<not> stopped (run established [Timer, Timer])"
    using timeout_state by simp
  show "\<forall>n. 0 \<le> random (run established [Timer, Timer]) n
             \<and> random (run established [Timer, Timer]) n < 1"
    using timeout_state by (simp add: half_def)
  have "probe_due (run established [Timer, Timer])"
    unfolding probe_due_def beat_def using timeout_state by simp
  then show "probe_due (run established [Timer, Timer]) \<or> probe_sent (run established [Timer, Timer])
             \<or> probe_nested (run established [Timer, Timer])"
    by simp
qed

text \<open>
  Claim C3 does not hold of the code. After the handshake the heartbeat ticks at 30000
  and no PONG arrives. The pong timeout fires at 36000 and \<^verbatim>\<open>attemptRecovery\<close> sends
  its first extra PING at 38000. That PING arms a pong timeout of 6000 ms, registered
  before the \<^verbatim>\<open>sleep\<close> of 6000 ms that waits for the answer; it fires first, calls
  \<^verbatim>\<open>attemptRecovery\<close> again, and that call clears \<^verbatim>\<open>pongTimeout\<close>. The first call wakes
  up, finds \<^verbatim>\<open>pongTimeout === null\<close>, takes it for a PONG and restarts the heartbeat:
  after five timers, at 44000, the heartbeat is running again and the second call sleeps
  before its own first probe.
  So every 8000 ms one PING goes out; by 94000 no RESUME was sent and no new gateway URL
  was asked for, where the claim has RESUME at 62000 and 84000 and the reconnect at 90000.
  And however many timers fire, no RESUME is sent, no socket is closed and no gateway URL
  is asked for beyond the one of the first connection.
\<close>

theorem recovery_never_escalates:
  "sent (run established silence) =
     [(30000, PING 0), (38000, PING 0), (46000, PING 0), (54000, PING 0), (62000, PING 0),
      (70000, PING 0), (78000, PING 0), (86000, PING 0), (94000, PING 0)]
   \<and> now (run established silence) = 94000
   \<and> sessionId (run established silence) = Some ''session''
   \<and> ws (run established silence) = Some 0
   \<and> readyState_of 0 (run established silence) = OPEN
   \<and> now (run established [Timer, Timer, Timer, Timer, Timer]) = 44000
   \<and> timers (run established [Timer, Timer, Timer, Timer, Timer]) =
        [\<lparr>t_id = 6, t_due = 46000, t_every = None, t_cb = ProbeSleepDone 0\<rparr>,
         \<lparr>t_id = 7, t_due = 74000, t_every = Some 30000, t_cb = HeartbeatTick\<rparr>]
   \<and> escalations established = [(0, GetGateway 1)]
   \<and> escalations (run established (Timer # Timer # replicate n Timer)) = escalations established"
proof -
  have "run established (Timer # Timer # replicate n Timer)
          = run (run established [Timer, Timer]) (replicate n Timer)"
    by (simp add: run_def)
  moreover have "escalations (run established [Timer, Timer]) = escalations established"
    by (simp add: escalations_def model_defs scenario_defs Let_def)
  ultimately have "escalations (run established (Timer # Timer # replicate n Timer))
                     = escalations established"
    using run_probing [OF timeout_probing, of n] by simp
  moreover have "escalations established = [(0, GetGateway 1)]"
    by (simp add: escalations_def model_defs scenario_defs Let_def)
  moreover have "sent (run established silence) =
     [(30000, PING 0), (38000, PING 0), (46000, PING 0), (54000, PING 0), (62000, PING 0),
      (70000, PING 0), (78000, PING 0), (86000, PING 0), (94000, PING 0)]
   \<and> now (run established silence) = 94000
   \<and> sessionId (run established silence) = Some ''session''
   \<and> ws (run established silence) = Some 0
   \<and> readyState_of 0 (run established silence) = OPEN"
    by (simp add: silence_def model_defs scenario_defs Let_def)
  moreover have "now (run established [Timer, Timer, Timer, Timer, Timer]) = 44000
   \<and> timers (run established [Timer, Timer, Timer, Timer, Timer]) =
        [\<lparr>t_id = 6, t_due = 46000, t_every = None, t_cb = ProbeSleepDone 0\<rparr>,
         \<lparr>t_id = 7, t_due = 74000, t_every = Some 30000, t_cb = HeartbeatTick\<rparr>]"
    by (simp add: model_defs scenario_defs Let_def)
  ultimately show ?thesis by simp
qed

end
